theory Spec2Isabelle
  imports Main
begin

section \<open>NFCService: the APDU codec\<close>

text \<open>
  The interface \<open>KeycardAPDU\<close> of NFCService.ts. The four header fields are JavaScript
  numbers that the service only ever fills with non-negative integers, so they are
  naturals here; the optional fields \<open>data\<close> (a hex string) and \<open>le\<close> are options,
  \<open>None\<close> standing for \<open>undefined\<close>.
\<close>

record KeycardAPDU =
  cla :: nat
  ins :: nat
  p1 :: nat
  p2 :: nat
  data :: "string option"
  le :: "nat option"

text \<open>The digit that \<open>Number.prototype.toString(16)\<close> writes for a value below 16.\<close>

definition hexDigit :: "nat \<Rightarrow> char" where
  "hexDigit n = ''0123456789abcdef'' ! n"

text \<open>\<open>n.toString(16)\<close> for a non-negative integer: lower case, no leading zero.\<close>

function toString16 :: "nat \<Rightarrow> string" where
  "toString16 n =
     (if n < 16 then [hexDigit n] else toString16 (n div 16) @ [hexDigit (n mod 16)])"
  by pat_completeness auto
termination
  by (relation "measure id") auto

text \<open>\<open>s.slice(-2)\<close>: the last two characters, the whole string when it is shorter.\<close>

definition slice_last2 :: "string \<Rightarrow> string" where
  "slice_last2 s = drop (length s - 2) s"

text \<open>\<open>byteToHex(byte) = ('0' + byte.toString(16)).slice(-2)\<close>.\<close>

definition byteToHex :: "nat \<Rightarrow> string" where
  "byteToHex byte = slice_last2 (''0'' @ toString16 byte)"

text \<open>The value of one hexadecimal digit, either case; \<open>None\<close> for any other character.\<close>

definition hexVal :: "char \<Rightarrow> nat option" where
  "hexVal c =
     (let n = (of_char c :: nat) in
      if 48 \<le> n \<and> n \<le> 57 then Some (n - 48)
      else if 97 \<le> n \<and> n \<le> 102 then Some (n - 87)
      else if 65 \<le> n \<and> n \<le> 70 then Some (n - 55)
      else None)"

text \<open>
  \<open>Buffer.from(s, 'hex')\<close>: one byte per pair of hex digits; decoding stops at the first
  pair that is not two hex digits, and a trailing single character is dropped.
\<close>

fun hexDecode :: "string \<Rightarrow> nat list" where
  "hexDecode (a # b # cs) =
     (case hexVal a of
        None \<Rightarrow> []
      | Some x \<Rightarrow> (case hexVal b of
                     None \<Rightarrow> []
                   | Some y \<Rightarrow> (16 * x + y) # hexDecode cs))"
| "hexDecode _ = []"

text \<open>\<open>Buffer.from(bytes).toString('hex')\<close>: two lower-case digits per byte.\<close>

definition toHexString :: "nat list \<Rightarrow> string" where
  "toHexString bs = concat (map (\<lambda>b. [hexDigit (b div 16 mod 16), hexDigit (b mod 16)]) bs)"

text \<open>
  \<open>formatAPDU\<close>: the header, then the length byte and the data when \<open>apdu.data\<close> is
  truthy (present and not the empty string) and the two characters \<open>00\<close> otherwise, then
  the Le byte when \<open>apdu.le\<close> is not \<open>undefined\<close>. The result is a hex string.
\<close>

definition formatAPDU :: "KeycardAPDU \<Rightarrow> string" where
  "formatAPDU apdu =
     (let apduStr = '''';
          apduStr = apduStr @ byteToHex (cla apdu);
          apduStr = apduStr @ byteToHex (ins apdu);
          apduStr = apduStr @ byteToHex (p1 apdu);
          apduStr = apduStr @ byteToHex (p2 apdu);
          apduStr =
            (case data apdu of
               Some d \<Rightarrow>
                 if d \<noteq> [] then
                   (let dataLength = length (hexDecode d) in
                    apduStr @ byteToHex dataLength @ d)
                 else apduStr @ ''00''
             | None \<Rightarrow> apduStr @ ''00'');
          apduStr =
            (case le apdu of
               Some l \<Rightarrow> apduStr @ byteToHex l
             | None \<Rightarrow> apduStr)
      in apduStr)"



subsection \<open>The commands NFCService builds\<close>

definition selectKeycard_apdu :: KeycardAPDU where
  "selectKeycard_apdu =
     \<lparr>cla = 0x00, ins = 0xa4, p1 = 0x04, p2 = 0x00,
      data = Some ''A0000008040001'', le = Some 256\<rparr>"

definition getKeycardStatus_apdu :: KeycardAPDU where
  "getKeycardStatus_apdu =
     \<lparr>cla = 0x80, ins = 0xf2, p1 = 0x00, p2 = 0x00, data = None, le = Some 256\<rparr>"

text \<open>\<open>Buffer.from(pin).toString('hex')\<close>: the bytes of the PIN string, in hex.\<close>

definition pinHex :: "string \<Rightarrow> string" where
  "pinHex pin = toHexString (map of_char pin)"

definition nfc_verifyPin_apdu :: "string \<Rightarrow> KeycardAPDU" where
  "nfc_verifyPin_apdu pin =
     \<lparr>cla = 0x80, ins = 0x20, p1 = 0x00, p2 = 0x00, data = Some (pinHex pin), le = Some 0\<rparr>"

definition getPublicKey_apdu :: "nat \<Rightarrow> KeycardAPDU" where
  "getPublicKey_apdu keyPath =
     \<lparr>cla = 0x80, ins = 0xf7, p1 = 0x00, p2 = keyPath, data = None, le = Some 256\<rparr>"

definition signData_apdu :: "string \<Rightarrow> KeycardAPDU" where
  "signData_apdu d =
     \<lparr>cla = 0x80, ins = 0xc0, p1 = 0x00, p2 = 0x00, data = Some d, le = Some 256\<rparr>"

text \<open>
  Every command method first sends SELECT and then its own command; the list of APDUs
  each one hands to \<open>sendAPDU\<close>, in order.
\<close>

definition selectKeycard_sends :: "KeycardAPDU list" where
  "selectKeycard_sends = [selectKeycard_apdu]"

definition getKeycardStatus_sends :: "KeycardAPDU list" where
  "getKeycardStatus_sends = selectKeycard_sends @ [getKeycardStatus_apdu]"

definition nfc_verifyPin_sends :: "string \<Rightarrow> KeycardAPDU list" where
  "nfc_verifyPin_sends pin = selectKeycard_sends @ [nfc_verifyPin_apdu pin]"

definition getPublicKey_sends :: "nat \<Rightarrow> KeycardAPDU list" where
  "getPublicKey_sends keyPath = selectKeycard_sends @ [getPublicKey_apdu keyPath]"

definition signData_sends :: "string \<Rightarrow> KeycardAPDU list" where
  "signData_sends d = selectKeycard_sends @ [signData_apdu d]"

subsection \<open>KEYCARD\_CONFIG of the constants module\<close>

record apdu_header =
  CLA :: nat
  INS :: nat

definition AID :: string where
  "AID = ''A0000008040001''"

definition SELECT :: apdu_header where
  "SELECT = \<lparr>CLA = 0x00, INS = 0xa4\<rparr>"

definition VERIFY_PIN :: apdu_header where
  "VERIFY_PIN = \<lparr>CLA = 0x80, INS = 0x20\<rparr>"

definition GET_PUBLIC_KEY :: apdu_header where
  "GET_PUBLIC_KEY = \<lparr>CLA = 0x80, INS = 0xf7\<rparr>"

definition SIGN :: apdu_header where
  "SIGN = \<lparr>CLA = 0x80, INS = 0xc0\<rparr>"

definition GET_STATUS :: apdu_header where
  "GET_STATUS = \<lparr>CLA = 0x80, INS = 0xf2\<rparr>"

section \<open>KeycardService\<close>

text \<open>
  The service object: the two mutable fields of the class. The status record is the
  interface \<open>KeycardStatus\<close>; \<open>pinRetries\<close> is a JavaScript number that the code
  decrements without a lower bound, so it is an integer.
\<close>

record KeycardStatus =
  initialized :: bool
  pinRetries :: int
  pukRetries :: int
  version :: string

record KeycardService =
  isConnected :: bool
  cardStatus :: "KeycardStatus option"

text \<open>The interface \<open>SigningResult\<close> (fields \<open>signature\<close>, \<open>v\<close>, \<open>r\<close>, \<open>s\<close>).\<close>

record SigningResult =
  signature :: string
  sig_v :: int
  sig_r :: string
  sig_s :: string

text \<open>
  The errors the service throws, one constructor per message: \<open>Keycard not connected\<close>,
  \<open>PIN must be 4-6 digits\<close>, \<open>PIN attempts exhausted. Keycard locked.\<close>,
  \<open>Invalid PIN. n attempts remaining.\<close> (with \<open>n\<close> absent when no status is stored), and
  whatever the ethers library throws on a transaction it cannot serialise.
\<close>

datatype keycard_error =
  KeycardNotConnected
| PinFormatError
| PinAttemptsExhausted
| InvalidPin "int option"
| EthersError

text \<open>
  The three private \<open>send...Command\<close> helpers stand for the exchanges with the card. Each
  operation below returns, with its result and the new state of the service, the list of
  these exchanges it started.
\<close>

datatype card_command =
  PinVerificationCommand string
| DerivationCommand string
| SigningCommand string

text \<open>A freshly constructed service: the field initialisers of the class.\<close>

definition new_KeycardService :: KeycardService where
  "new_KeycardService = \<lparr>isConnected = False, cardStatus = None\<rparr>"

definition MAX_PIN_RETRIES :: int where
  "MAX_PIN_RETRIES = 3"

text \<open>
  \<open>initializeKeycard\<close>: stores a fresh status and sets the connected flag. Nothing in
  the body of its \<open>try\<close> can throw, so the \<open>catch\<close> branch is never taken. It tests
  neither field before writing them.
\<close>

definition initializeKeycard ::
  "KeycardService \<Rightarrow> (keycard_error + KeycardStatus) \<times> KeycardService \<times> card_command list" where
  "initializeKeycard svc =
     (let status = \<lparr>initialized = True, pinRetries = 3, pukRetries = 5, version = ''3.4''\<rparr>;
          svc = svc\<lparr>cardStatus := Some status\<rparr>;
          svc = svc\<lparr>isConnected := True\<rparr>
      in (Inr status, svc, []))"

text \<open>The character class \<open>\d\<close> of a JavaScript regular expression.\<close>

definition isDigit :: "char \<Rightarrow> bool" where
  "isDigit c = (c \<in> set ''0123456789'')"

text \<open>The test \<open>/^\d{4,6}$/.test(pin)\<close>.\<close>

definition pinFormatOk :: "string \<Rightarrow> bool" where
  "pinFormatOk pin = (4 \<le> length pin \<and> length pin \<le> 6 \<and> list_all isDigit pin)"

text \<open>\<open>sendPinVerificationCommand\<close>: the simulated card accepts a PIN of length 4 or 6.\<close>

definition sendPinVerificationCommand :: "string \<Rightarrow> bool" where
  "sendPinVerificationCommand pin = (length pin = 4 \<or> length pin = 6)"

definition verifyPin ::
  "KeycardService \<Rightarrow> string \<Rightarrow> (keycard_error + bool) \<times> KeycardService \<times> card_command list" where
  "verifyPin svc pin =
     (if \<not> isConnected svc then (Inl KeycardNotConnected, svc, [])
      else if \<not> pinFormatOk pin then (Inl PinFormatError, svc, [])
      else
        (let isValid = sendPinVerificationCommand pin;
             sent = [PinVerificationCommand pin]
         in if \<not> isValid then
              (case cardStatus svc of
                 Some status \<Rightarrow>
                   (let status = status\<lparr>pinRetries := pinRetries status - 1\<rparr>;
                        svc = svc\<lparr>cardStatus := Some status\<rparr>
                    in if pinRetries status = 0 then (Inl PinAttemptsExhausted, svc, sent)
                       else (Inl (InvalidPin (Some (pinRetries status))), svc, sent))
               | None \<Rightarrow> (Inl (InvalidPin None), svc, sent))
            else (Inr True, svc, sent)))"

text \<open>\<open>sendDerivationCommand\<close>: the same mock public key for every path.\<close>

definition sendDerivationCommand :: "string \<Rightarrow> string" where
  "sendDerivationCommand path = ''0x'' @ ''02'' @ replicate 128 (CHR ''a'')"

definition derivePublicKey ::
  "KeycardService \<Rightarrow> string \<Rightarrow> (keycard_error + string) \<times> KeycardService \<times> card_command list" where
  "derivePublicKey svc derivationPath =
     (if \<not> isConnected svc then (Inl KeycardNotConnected, svc, [])
      else (Inr (sendDerivationCommand derivationPath), svc, [DerivationCommand derivationPath]))"

text \<open>\<open>sendSigningCommand\<close>: the same mock signature for every input.\<close>

definition sendSigningCommand :: "string \<Rightarrow> SigningResult" where
  "sendSigningCommand dataToSign =
     \<lparr>signature = ''0x'' @ replicate 130 (CHR ''b''),
      sig_v = 27,
      sig_r = ''0x'' @ replicate 64 (CHR ''c''),
      sig_s = ''0x'' @ replicate 64 (CHR ''d'')\<rparr>"

text \<open>
  \<open>signTransaction\<close>. The ethers library serialises and hashes the transaction; that
  step is the parameter \<open>txHashOf\<close>, \<open>None\<close> when ethers throws.
\<close>

definition signTransaction ::
  "('tx \<Rightarrow> string option) \<Rightarrow> KeycardService \<Rightarrow> 'tx
     \<Rightarrow> (keycard_error + SigningResult) \<times> KeycardService \<times> card_command list" where
  "signTransaction txHashOf svc transaction =
     (if \<not> isConnected svc then (Inl KeycardNotConnected, svc, [])
      else
        (case txHashOf transaction of
           None \<Rightarrow> (Inl EthersError, svc, [])
         | Some txHash \<Rightarrow>
             (let sig = sendSigningCommand txHash
              in (Inr \<lparr>signature = signature sig, sig_v = sig_v sig,
                       sig_r = sig_r sig, sig_s = sig_s sig\<rparr>,
                  svc, [SigningCommand txHash]))))"

text \<open>\<open>signMessage\<close>, with the EIP-191 hash of ethers as the parameter \<open>hashMessage\<close>.\<close>

definition signMessage ::
  "(string \<Rightarrow> string) \<Rightarrow> KeycardService \<Rightarrow> string
     \<Rightarrow> (keycard_error + string) \<times> KeycardService \<times> card_command list" where
  "signMessage hashMessage svc message =
     (if \<not> isConnected svc then (Inl KeycardNotConnected, svc, [])
      else
        (let messageHash = hashMessage message;
             sig = sendSigningCommand messageHash
         in (Inr (signature sig), svc, [SigningCommand messageHash])))"

definition getStatus :: "KeycardService \<Rightarrow> KeycardStatus option" where
  "getStatus svc = cardStatus svc"

definition disconnect :: "KeycardService \<Rightarrow> KeycardService" where
  "disconnect svc = (let svc = svc\<lparr>isConnected := False\<rparr> in svc\<lparr>cardStatus := None\<rparr>)"

text \<open>
  A request to the service, and the state it leaves behind; \<open>run\<close> applies a sequence of
  requests from left to right.
\<close>

datatype 'tx request =
  Initialize
| VerifyPin string
| DerivePublicKey string
| SignTransaction 'tx
| SignMessage string
| GetStatus
| Disconnect

fun step ::
  "('tx \<Rightarrow> string option) \<Rightarrow> (string \<Rightarrow> string) \<Rightarrow> KeycardService \<Rightarrow> 'tx request
     \<Rightarrow> KeycardService" where
  "step txHashOf hashMessage svc Initialize = fst (snd (initializeKeycard svc))"
| "step txHashOf hashMessage svc (VerifyPin pin) = fst (snd (verifyPin svc pin))"
| "step txHashOf hashMessage svc (DerivePublicKey path) = fst (snd (derivePublicKey svc path))"
| "step txHashOf hashMessage svc (SignTransaction tx) =
     fst (snd (signTransaction txHashOf svc tx))"
| "step txHashOf hashMessage svc (SignMessage m) = fst (snd (signMessage hashMessage svc m))"
| "step txHashOf hashMessage svc GetStatus = svc"
| "step txHashOf hashMessage svc Disconnect = disconnect svc"

definition run ::
  "('tx \<Rightarrow> string option) \<Rightarrow> (string \<Rightarrow> string) \<Rightarrow> KeycardService \<Rightarrow> 'tx request list
     \<Rightarrow> KeycardService" where
  "run txHashOf hashMessage svc reqs = foldl (step txHashOf hashMessage) svc reqs"

section \<open>Derivation paths (helpers module)\<close>

text \<open>
  The regular expression \<open>/^m(\/\d+'?)*$/\<close> of \<open>isValidDerivationPath\<close>, as the automaton
  that reads the characters after the leading \<open>m\<close>. \<open>Boundary\<close>: a segment has just been
  completed by an apostrophe, or none has started; only \<open>/\<close> may follow. \<open>Slash\<close>: a
  \<open>/\<close> has been read and a digit must follow. \<open>Digits\<close>: one or more digits of a segment
  have been read. A JavaScript \<open>$\<close> without the \<open>m\<close> flag matches at the end of the input
  only, so the automaton accepts exactly at the end of the string.
\<close>

datatype path_state = Boundary | Slash | Digits

definition apostrophe :: char where
  "apostrophe = CHR 0x27"

fun matchSegments :: "path_state \<Rightarrow> string \<Rightarrow> bool" where
  "matchSegments st [] = (st = Boundary \<or> st = Digits)"
| "matchSegments Boundary (c # cs) = (c = CHR ''/'' \<and> matchSegments Slash cs)"
| "matchSegments Slash (c # cs) = (isDigit c \<and> matchSegments Digits cs)"
| "matchSegments Digits (c # cs) =
     (if isDigit c then matchSegments Digits cs
      else if c = apostrophe then matchSegments Boundary cs
      else c = CHR ''/'' \<and> matchSegments Slash cs)"

definition isValidDerivationPath :: "string \<Rightarrow> bool" where
  "isValidDerivationPath path =
     (case path of [] \<Rightarrow> False | c # cs \<Rightarrow> c = CHR ''m'' \<and> matchSegments Boundary cs)"

text \<open>\<open>s.split(sep)\<close> for a one-character separator: always at least one piece.\<close>

fun split :: "char \<Rightarrow> string \<Rightarrow> string list" where
  "split sep [] = [[]]"
| "split sep (c # cs) =
     (let pieces = split sep cs
      in if c = sep then [] # pieces else (c # hd pieces) # tl pieces)"

text \<open>\<open>s.endsWith("'")\<close> and \<open>s.replace("'", '')\<close> (the first occurrence only).\<close>

definition endsWithApostrophe :: "string \<Rightarrow> bool" where
  "endsWithApostrophe part = (part \<noteq> [] \<and> last part = apostrophe)"

definition replaceApostrophe :: "string \<Rightarrow> string" where
  "replaceApostrophe part = remove1 apostrophe part"

text \<open>
  JavaScript numbers are IEEE 754 doubles. The values that occur here are not-a-number,
  the non-negative integers a double represents exactly, and positive infinity.
  \<open>toNumber n\<close> is the double nearest to the integer \<open>n\<close> (ties to the even significand):
  \<open>n\<close> itself below \<open>2^53\<close>, otherwise \<open>n\<close> rounded to 53 significant bits, and infinity
  once that reaches \<open>2^1024\<close>.
\<close>

datatype jsnum = NaN | Num nat | PosInfinity

fun bitLength :: "nat \<Rightarrow> nat" where
  "bitLength n = (if n = 0 then 0 else Suc (bitLength (n div 2)))"

definition toNumber :: "nat \<Rightarrow> jsnum" where
  "toNumber n =
     (if n < 2 ^ 53 then Num n
      else
        (let e = bitLength n - 53;
             q = n div 2 ^ e;
             rest = n mod 2 ^ e;
             half = 2 ^ (e - 1);
             q = (if half < rest \<or> (rest = half \<and> odd q) then q + 1 else q)
         in if 2 ^ 1024 \<le> q * 2 ^ e then PosInfinity else Num (q * 2 ^ e)))"

text \<open>The sum \<open>x + k\<close> of a number and a non-negative integer constant.\<close>

fun jsAdd :: "jsnum \<Rightarrow> nat \<Rightarrow> jsnum" where
  "jsAdd NaN k = NaN"
| "jsAdd PosInfinity k = PosInfinity"
| "jsAdd (Num a) k = toNumber (a + k)"

definition digitValue :: "char \<Rightarrow> nat" where
  "digitValue c = of_char c - 48"

definition decimalValue :: "string \<Rightarrow> nat" where
  "decimalValue ds = foldl (\<lambda>acc c. 10 * acc + digitValue c) 0 ds"

text \<open>
  \<open>parseInt(s, 10)\<close> on the strings that reach it in \<open>parseDerivationPath\<close>: the longest
  prefix of decimal digits is read as an integer and converted to a number; there is no
  number when that prefix is empty. (Leading white space and a sign, which \<open>parseInt\<close>
  would also accept, cannot occur in a part of a path that passed the validity test.)
\<close>

definition parseInt10 :: "string \<Rightarrow> jsnum" where
  "parseInt10 str =
     (let ds = takeWhile isDigit str
      in if ds = [] then NaN else toNumber (decimalValue ds))"

datatype path_error = InvalidDerivationPath

definition parseDerivationPath :: "string \<Rightarrow> path_error + jsnum list" where
  "parseDerivationPath path =
     (if \<not> isValidDerivationPath path then Inl InvalidDerivationPath
      else
        (let parts = drop 1 (split (CHR ''/'') path)
         in Inr (map (\<lambda>part.
                   (let hardened = endsWithApostrophe part;
                        index = parseInt10 (replaceApostrophe part)
                    in if hardened then jsAdd index 0x80000000 else index))
                 parts)))"

section \<open>Definitions that follow the specification\<close>

text \<open>
  A string of hex digits of even length: the \<open>data\<close> strings on which every \<open>Buffer\<close>
  implementation agrees.
\<close>

definition isHexString :: "string \<Rightarrow> bool" where
  "isHexString d = (even (length d) \<and> list_all (\<lambda>c. hexVal c \<noteq> None) d)"

text \<open>
  The encoding as section 4.1 of the specification words it, in bytes:
  \<open>CLA|INS|P1|P2|[Lc|Data]|[Le]\<close>, with Lc and Data left out when there is no data and
  Le present exactly when the expected length is set.
\<close>

definition encode_spec :: "KeycardAPDU \<Rightarrow> nat list" where
  "encode_spec cmd =
     [cla cmd mod 256, ins cmd mod 256, p1 cmd mod 256, p2 cmd mod 256]
     @ (case data cmd of
          Some d \<Rightarrow> if d \<noteq> [] then (length (hexDecode d) mod 256) # hexDecode d else []
        | None \<Rightarrow> [])
     @ (case le cmd of Some l \<Rightarrow> [l mod 256] | None \<Rightarrow> [])"

text \<open>
  The response of section 3 of the specification, \<open>{data, sw1, sw2}\<close> (the field
  \<open>data\<close> is named \<open>payload\<close> here, \<open>data\<close> being a field of the command), and the
  error of a malformed frame.
\<close>

datatype codec_error = ProtocolError

record APDUResponse =
  payload :: "nat list"
  sw1 :: nat
  sw2 :: nat

text \<open>
  Modelled from the spec: the response decoder \<open>decode\<close> of section 4.1, which the
  sources do not contain (\<open>sendAPDU\<close> returns the response as one hex string, status word
  included). It splits the trailing two bytes off as the status word and returns the rest
  as the payload; fewer than two bytes is a \<open>ProtocolError\<close>.
\<close>

definition decode :: "nat list \<Rightarrow> codec_error + APDUResponse" where
  "decode bytes =
     (if length bytes < 2 then Inl ProtocolError
      else Inr \<lparr>payload = take (length bytes - 2) bytes,
                sw1 = bytes ! (length bytes - 2),
                sw2 = bytes ! (length bytes - 1)\<rparr>)"

text \<open>
  A derivation path as the claim describes it: \<open>m\<close> followed by segments, each a
  non-empty string of decimal digits with an optional apostrophe. \<open>renderPath\<close> writes
  such a list of segments as a string.
\<close>

type_synonym segment = "string \<times> bool"

definition validSegment :: "segment \<Rightarrow> bool" where
  "validSegment sg = (fst sg \<noteq> [] \<and> list_all isDigit (fst sg))"

definition segmentText :: "segment \<Rightarrow> string" where
  "segmentText sg = fst sg @ (if snd sg then [apostrophe] else [])"

definition renderSegments :: "segment list \<Rightarrow> string" where
  "renderSegments sgs = concat (map (\<lambda>sg. CHR ''/'' # segmentText sg) sgs)"

definition renderPath :: "segment list \<Rightarrow> string" where
  "renderPath sgs = CHR ''m'' # renderSegments sgs"

definition segmentIndex :: "segment \<Rightarrow> nat" where
  "segmentIndex sg = (if snd sg then decimalValue (fst sg) + 2 ^ 31 else decimalValue (fst sg))"

section \<open>Properties of the codec\<close>

lemma hexVal_hexDigit_all: "list_all (\<lambda>n. hexVal (hexDigit n) = Some n) [0..<16]"
  by code_simp

lemma hexVal_hexDigit: "n < 16 \<Longrightarrow> hexVal (hexDigit n) = Some n"
  using hexVal_hexDigit_all by (simp add: list_all_iff)

lemma toString16_nonempty: "toString16 n \<noteq> []"
  by (subst toString16.simps) simp

lemma last_toString16: "last (toString16 n) = hexDigit (n mod 16)"
  by (subst toString16.simps) simp

lemma slice_last2_snoc2: "slice_last2 (xs @ [a, b]) = [a, b]"
  by (simp add: slice_last2_def)

text \<open>\<open>byteToHex\<close> writes the two low hex digits of its argument, whatever its size.\<close>

lemma byteToHex_digits:
  "byteToHex n = [hexDigit (n div 16 mod 16), hexDigit (n mod 16)]"
proof (cases "n < 16")
  case True
  then show ?thesis
    by (simp add: byteToHex_def slice_last2_def hexDigit_def)
next
  case False
  have ne: "toString16 (n div 16) \<noteq> []" by (rule toString16_nonempty)
  then have front: "toString16 (n div 16) =
      butlast (toString16 (n div 16)) @ [hexDigit (n div 16 mod 16)]"
    using last_toString16 [of "n div 16"] append_butlast_last_id [OF ne] by simp
  have "toString16 n = toString16 (n div 16) @ [hexDigit (n mod 16)]"
    using False by (subst toString16.simps) simp
  then have "''0'' @ toString16 n =
      (''0'' @ butlast (toString16 (n div 16))) @ [hexDigit (n div 16 mod 16), hexDigit (n mod 16)]"
    using front by simp
  then show ?thesis
    unfolding byteToHex_def by (simp only: slice_last2_snoc2)
qed

lemma hexDecode_byteToHex: "hexDecode (byteToHex n @ rest) = (n mod 256) # hexDecode rest"
proof -
  have "n mod 256 = 16 * (n mod 256 div 16) + n mod 256 mod 16"
    by simp
  moreover have "n mod 256 div 16 = n div 16 mod 16"
    using mod_mult2_eq [of n 16 16] by simp
  moreover have "n mod 256 mod 16 = n mod 16"
    by (simp add: mod_mod_cancel)
  ultimately have "16 * (n div 16 mod 16) + n mod 16 = n mod 256"
    by simp
  then show ?thesis
    by (simp add: byteToHex_digits hexVal_hexDigit)
qed

lemma hexDecode_byteToHex_end: "hexDecode (byteToHex n) = [n mod 256]"
  using hexDecode_byteToHex [of n "[]"] by simp

lemma hexDecode_00: "hexDecode (''00'' @ rest) = 0 # hexDecode rest"
  using hexDecode_byteToHex [of 0 rest] by (simp add: byteToHex_digits hexDigit_def)

lemma isHexString_step: "isHexString (a # b # cs) \<Longrightarrow> isHexString cs"
  by (simp add: isHexString_def)

lemma hexDecode_append:
  "isHexString d \<Longrightarrow> hexDecode (d @ rest) = hexDecode d @ hexDecode rest"
proof (induction d rule: hexDecode.induct)
  case (1 a b cs)
  from 1(2) have "isHexString cs" by (rule isHexString_step)
  with 1 show ?case
    by (auto simp add: isHexString_def split: option.splits)
next
  case "2_1"
  then show ?case by simp
next
  case "2_2"
  then show ?case by (simp add: isHexString_def)
qed

lemma length_hexDecode: "isHexString d \<Longrightarrow> length (hexDecode d) = length d div 2"
proof (induction d rule: hexDecode.induct)
  case (1 a b cs)
  from 1(2) have "isHexString cs" by (rule isHexString_step)
  with 1 show ?case
    by (auto simp add: isHexString_def split: option.splits)
next
  case "2_1"
  then show ?case by simp
next
  case "2_2"
  then show ?case by (simp add: isHexString_def)
qed

text \<open>The string \<open>formatAPDU\<close> builds, with the chain of assignments flattened.\<close>

lemma formatAPDU_string:
  "formatAPDU apdu =
     byteToHex (cla apdu) @ byteToHex (ins apdu) @ byteToHex (p1 apdu) @ byteToHex (p2 apdu)
     @ (case data apdu of
          Some d \<Rightarrow> if d \<noteq> [] then byteToHex (length (hexDecode d)) @ d else ''00''
        | None \<Rightarrow> ''00'')
     @ (case le apdu of Some l \<Rightarrow> byteToHex l | None \<Rightarrow> [])"
  by (simp add: formatAPDU_def Let_def split: option.splits)

lemma hexDecode_formatAPDU_header:
  "\<exists>rest. hexDecode (formatAPDU apdu) =
     cla apdu mod 256 # ins apdu mod 256 # p1 apdu mod 256 # p2 apdu mod 256 # rest"
  unfolding formatAPDU_string by (simp only: append_assoc hexDecode_byteToHex) simp

text \<open>
  Claim C5, as the code has it. For a command whose data, when present, is a hex string
  of even length, the bytes that \<open>sendAPDU\<close> hands to the card are the four header
  bytes, then the length byte Lc and the data bytes when the command carries data and the
  single byte \<open>00\<close> (Lc = 0) when it carries none, then the Le byte exactly when \<open>le\<close> is
  set. Every byte is written modulo 256, so \<open>le = 256\<close> goes out as \<open>00\<close>.
\<close>

theorem formatAPDU_wire_bytes:
  assumes "case data apdu of Some d \<Rightarrow> isHexString d | None \<Rightarrow> True"
  shows "hexDecode (formatAPDU apdu) =
     [cla apdu mod 256, ins apdu mod 256, p1 apdu mod 256, p2 apdu mod 256]
     @ (case data apdu of
          Some d \<Rightarrow> if d \<noteq> [] then ((length d div 2) mod 256) # hexDecode d else [0]
        | None \<Rightarrow> [0])
     @ (case le apdu of Some l \<Rightarrow> [l mod 256] | None \<Rightarrow> [])"
proof -
  let ?tail = "(case le apdu of Some l \<Rightarrow> byteToHex l | None \<Rightarrow> [])"
  have tail: "hexDecode ?tail = (case le apdu of Some l \<Rightarrow> [l mod 256] | None \<Rightarrow> [])"
    by (simp add: hexDecode_byteToHex_end split: option.splits)
  have body: "hexDecode ((case data apdu of
          Some d \<Rightarrow> if d \<noteq> [] then byteToHex (length (hexDecode d)) @ d else ''00''
        | None \<Rightarrow> ''00'') @ ?tail) =
      (case data apdu of
          Some d \<Rightarrow> if d \<noteq> [] then ((length d div 2) mod 256) # hexDecode d else [0]
        | None \<Rightarrow> [0]) @ hexDecode ?tail"
  proof (cases "data apdu")
    case None
    then show ?thesis using hexDecode_00 [of ?tail] by simp
  next
    case (Some d)
    with assms have hex: "isHexString d" by simp
    show ?thesis
    proof (cases "d = []")
      case True
      with Some show ?thesis using hexDecode_00 [of ?tail] by simp
    next
      case False
      with Some show ?thesis
        by (simp add: hexDecode_byteToHex hexDecode_append [OF hex] length_hexDecode [OF hex])
    qed
  qed
  show ?thesis
    unfolding formatAPDU_string
    by (simp only: append_assoc hexDecode_byteToHex body tail) simp
qed

text \<open>Witness for C5: the SELECT command, whose data is the application identifier.\<close>

theorem formatAPDU_wire_bytes_witness:
  "(case data selectKeycard_apdu of Some d \<Rightarrow> isHexString d | None \<Rightarrow> True) \<and>
   hexDecode (formatAPDU selectKeycard_apdu) =
     [0x00, 0xa4, 0x04, 0x00, 0x07, 0xa0, 0x00, 0x00, 0x08, 0x04, 0x00, 0x01, 0x00]"
proof -
  have h: "case data selectKeycard_apdu of Some d \<Rightarrow> isHexString d | None \<Rightarrow> True"
    by (simp add: selectKeycard_apdu_def isHexString_def hexVal_def)
  show ?thesis
    using h formatAPDU_wire_bytes [OF h]
    by (simp add: selectKeycard_apdu_def hexVal_def)
qed

text \<open>
  Counterexample to C5 as stated: GET STATUS carries no data, and \<open>formatAPDU\<close> still
  writes a length byte for it, so six bytes go out where the specification's encoding
  has five.
\<close>

theorem formatAPDU_keeps_Lc_without_data:
  "hexDecode (formatAPDU getKeycardStatus_apdu) = [0x80, 0xf2, 0x00, 0x00, 0x00, 0x00] \<and>
   encode_spec getKeycardStatus_apdu = [0x80, 0xf2, 0x00, 0x00, 0x00] \<and>
   hexDecode (formatAPDU getKeycardStatus_apdu) \<noteq> encode_spec getKeycardStatus_apdu"
  by (simp add: formatAPDU_string getKeycardStatus_apdu_def encode_spec_def
      byteToHex_digits hexDigit_def hexVal_def)

text \<open>
  Claim C7. The commands that NFCService builds, and the table \<open>APDU_COMMANDS\<close> of the
  constants module, carry the fixed class and instruction bytes: SELECT is
  \<open>00 A4 04 00\<close> with the application identifier \<open>A0000008040001\<close> as data, VERIFY PIN
  is \<open>80 20\<close>, GET STATUS \<open>80 F2\<close>, GET PUBLIC KEY \<open>80 F7\<close> and SIGN \<open>80 C0\<close>; the
  same bytes open the encoded command on the wire, and every command method sends SELECT
  first and its own command second.
\<close>

theorem fixed_command_encodings:
  "cla selectKeycard_apdu = 0x00 \<and> ins selectKeycard_apdu = 0xA4 \<and>
   p1 selectKeycard_apdu = 0x04 \<and> p2 selectKeycard_apdu = 0x00 \<and>
   data selectKeycard_apdu = Some AID \<and> AID = ''A0000008040001'' \<and>
   hexDecode AID = [0xA0, 0x00, 0x00, 0x08, 0x04, 0x00, 0x01] \<and>
   cla (nfc_verifyPin_apdu pin) = 0x80 \<and> ins (nfc_verifyPin_apdu pin) = 0x20 \<and>
   cla getKeycardStatus_apdu = 0x80 \<and> ins getKeycardStatus_apdu = 0xF2 \<and>
   cla (getPublicKey_apdu keyPath) = 0x80 \<and> ins (getPublicKey_apdu keyPath) = 0xF7 \<and>
   cla (signData_apdu d) = 0x80 \<and> ins (signData_apdu d) = 0xC0 \<and>
   take 4 (hexDecode (formatAPDU selectKeycard_apdu)) = [0x00, 0xA4, 0x04, 0x00] \<and>
   take 2 (hexDecode (formatAPDU (nfc_verifyPin_apdu pin))) = [0x80, 0x20] \<and>
   take 2 (hexDecode (formatAPDU getKeycardStatus_apdu)) = [0x80, 0xF2] \<and>
   take 2 (hexDecode (formatAPDU (getPublicKey_apdu keyPath))) = [0x80, 0xF7] \<and>
   take 2 (hexDecode (formatAPDU (signData_apdu d))) = [0x80, 0xC0] \<and>
   map (\<lambda>c. (cla c, ins c)) selectKeycard_sends = [(0x00, 0xA4)] \<and>
   map (\<lambda>c. (cla c, ins c)) (nfc_verifyPin_sends pin) = [(0x00, 0xA4), (0x80, 0x20)] \<and>
   map (\<lambda>c. (cla c, ins c)) getKeycardStatus_sends = [(0x00, 0xA4), (0x80, 0xF2)] \<and>
   map (\<lambda>c. (cla c, ins c)) (getPublicKey_sends keyPath) = [(0x00, 0xA4), (0x80, 0xF7)] \<and>
   map (\<lambda>c. (cla c, ins c)) (signData_sends d) = [(0x00, 0xA4), (0x80, 0xC0)] \<and>
   SELECT = \<lparr>CLA = 0x00, INS = 0xA4\<rparr> \<and> VERIFY_PIN = \<lparr>CLA = 0x80, INS = 0x20\<rparr> \<and>
   GET_STATUS = \<lparr>CLA = 0x80, INS = 0xF2\<rparr> \<and> GET_PUBLIC_KEY = \<lparr>CLA = 0x80, INS = 0xF7\<rparr> \<and>
   SIGN = \<lparr>CLA = 0x80, INS = 0xC0\<rparr>"
proof -
  have sends:
    "map (\<lambda>c. (cla c, ins c)) selectKeycard_sends = [(0x00, 0xA4)] \<and>
     map (\<lambda>c. (cla c, ins c)) (nfc_verifyPin_sends pin) = [(0x00, 0xA4), (0x80, 0x20)] \<and>
     map (\<lambda>c. (cla c, ins c)) getKeycardStatus_sends = [(0x00, 0xA4), (0x80, 0xF2)] \<and>
     map (\<lambda>c. (cla c, ins c)) (getPublicKey_sends keyPath) = [(0x00, 0xA4), (0x80, 0xF7)] \<and>
     map (\<lambda>c. (cla c, ins c)) (signData_sends d) = [(0x00, 0xA4), (0x80, 0xC0)]"
    by (simp add: selectKeycard_sends_def nfc_verifyPin_sends_def getKeycardStatus_sends_def
        getPublicKey_sends_def signData_sends_def selectKeycard_apdu_def nfc_verifyPin_apdu_def
        getKeycardStatus_apdu_def getPublicKey_apdu_def signData_apdu_def)
  have fields: "cla selectKeycard_apdu = 0x00 \<and> ins selectKeycard_apdu = 0xA4 \<and>
      p1 selectKeycard_apdu = 0x04 \<and> p2 selectKeycard_apdu = 0x00 \<and>
      data selectKeycard_apdu = Some AID \<and> AID = ''A0000008040001'' \<and>
      cla (nfc_verifyPin_apdu pin) = 0x80 \<and> ins (nfc_verifyPin_apdu pin) = 0x20 \<and>
      cla getKeycardStatus_apdu = 0x80 \<and> ins getKeycardStatus_apdu = 0xF2 \<and>
      cla (getPublicKey_apdu keyPath) = 0x80 \<and> ins (getPublicKey_apdu keyPath) = 0xF7 \<and>
      cla (signData_apdu d) = 0x80 \<and> ins (signData_apdu d) = 0xC0"
    by (simp add: selectKeycard_apdu_def nfc_verifyPin_apdu_def getKeycardStatus_apdu_def
        getPublicKey_apdu_def signData_apdu_def AID_def)
  have aid': "hexDecode ''A0000008040001'' = [0xA0, 0x00, 0x00, 0x08, 0x04, 0x00, 0x01]"
    by (simp add: hexVal_def)
  have wire: "take 4 (hexDecode (formatAPDU apdu)) =
      [cla apdu mod 256, ins apdu mod 256, p1 apdu mod 256, p2 apdu mod 256]" for apdu
    using hexDecode_formatAPDU_header [of apdu] by auto
  have wire2: "take 2 (hexDecode (formatAPDU apdu)) = [cla apdu mod 256, ins apdu mod 256]"
    for apdu
    using hexDecode_formatAPDU_header [of apdu] by auto
  have w1: "take 4 (hexDecode (formatAPDU selectKeycard_apdu)) = [0x00, 0xA4, 0x04, 0x00]"
    by (simp add: wire selectKeycard_apdu_def)
  have w2: "take 2 (hexDecode (formatAPDU (nfc_verifyPin_apdu pin))) = [0x80, 0x20]"
    by (simp add: wire2 nfc_verifyPin_apdu_def)
  have w3: "take 2 (hexDecode (formatAPDU getKeycardStatus_apdu)) = [0x80, 0xF2]"
    by (simp add: wire2 getKeycardStatus_apdu_def)
  have w4: "take 2 (hexDecode (formatAPDU (getPublicKey_apdu keyPath))) = [0x80, 0xF7]"
    by (simp add: wire2 getPublicKey_apdu_def)
  have w5: "take 2 (hexDecode (formatAPDU (signData_apdu d))) = [0x80, 0xC0]"
    by (simp add: wire2 signData_apdu_def)
  have cfg: "SELECT = \<lparr>CLA = 0x00, INS = 0xA4\<rparr> \<and> VERIFY_PIN = \<lparr>CLA = 0x80, INS = 0x20\<rparr> \<and>
      GET_STATUS = \<lparr>CLA = 0x80, INS = 0xF2\<rparr> \<and> GET_PUBLIC_KEY = \<lparr>CLA = 0x80, INS = 0xF7\<rparr> \<and>
      SIGN = \<lparr>CLA = 0x80, INS = 0xC0\<rparr>"
    by (simp add: SELECT_def VERIFY_PIN_def GET_STATUS_def GET_PUBLIC_KEY_def SIGN_def)
  show ?thesis
    by (intro conjI) (simp_all only: fields aid' w1 w2 w3 w4 w5 sends cfg)
qed

lemma decode_snoc2: "decode (body @ [a, b]) = Inr \<lparr>payload = body, sw1 = a, sw2 = b\<rparr>"
  by (simp add: decode_def nth_append)

lemma two_trailing_bytes:
  assumes "2 \<le> length bytes"
  shows "bytes = butlast (butlast bytes) @ [last (butlast bytes), last bytes]"
proof -
  from assms have ne: "bytes \<noteq> []" by auto
  from assms have ne': "butlast bytes \<noteq> []" by (cases bytes rule: rev_cases) auto
  have "bytes = butlast bytes @ [last bytes]"
    using ne by simp
  also have "butlast bytes = butlast (butlast bytes) @ [last (butlast bytes)]"
    using ne' by simp
  finally show ?thesis by simp
qed

text \<open>
  Claim C6. An input of at least two bytes is a payload followed by two status bytes, and
  \<open>decode\<close> returns exactly that payload and those two bytes; an input of fewer than two
  bytes is a \<open>ProtocolError\<close>.
\<close>

theorem decode_splits_status_word:
  "(2 \<le> length bytes \<longrightarrow>
      (\<exists>body a b. bytes = body @ [a, b] \<and>
         decode bytes = Inr \<lparr>payload = body, sw1 = a, sw2 = b\<rparr>)) \<and>
   (length bytes < 2 \<longrightarrow> decode bytes = Inl ProtocolError)"
proof (intro conjI impI)
  assume len: "2 \<le> length bytes"
  from two_trailing_bytes [OF len] obtain body a b where eq: "bytes = body @ [a, b]"
    by blast
  show "\<exists>body a b. bytes = body @ [a, b] \<and>
      decode bytes = Inr \<lparr>payload = body, sw1 = a, sw2 = b\<rparr>"
    using eq decode_snoc2 [of body a b] by blast
next
  assume "length bytes < 2"
  then show "decode bytes = Inl ProtocolError" by (simp add: decode_def)
qed

text \<open>Witness for C6: a three-byte response ending in \<open>90 00\<close>, and a one-byte response.\<close>

theorem decode_splits_status_word_witness:
  "(2 \<le> length [0x01, 0x90, 0x00 :: nat] \<and>
      decode [0x01, 0x90, 0x00] = Inr \<lparr>payload = [0x01], sw1 = 0x90, sw2 = 0x00\<rparr>) \<and>
   (length [0x6a :: nat] < 2 \<and> decode [0x6a] = Inl ProtocolError)"
  using decode_splits_status_word [of "[0x01, 0x90, 0x00]"]
    decode_splits_status_word [of "[0x6a]"]
  by auto





section \<open>Properties of KeycardService\<close>

lemma initializeKeycard_result:
  "initializeKeycard svc =
     (Inr \<lparr>initialized = True, pinRetries = 3, pukRetries = 5, version = ''3.4''\<rparr>,
      \<lparr>isConnected = True,
       cardStatus = Some \<lparr>initialized = True, pinRetries = 3, pukRetries = 5, version = ''3.4''\<rparr>\<rparr>,
      [])"
  by (simp add: initializeKeycard_def Let_def)

text \<open>
  Claim C4, as the code has it. \<open>initializeKeycard\<close> succeeds from every state of the
  service, connected or not: it returns the fresh status (three PIN retries, five PUK
  retries, version 3.4), stores it over whatever status was held, and leaves the service
  connected. The service has one connection flag and one status slot, so a second call
  replaces the first connection's status rather than opening a second one.
\<close>

theorem initializeKeycard_always_succeeds:
  "initializeKeycard svc =
     (Inr \<lparr>initialized = True, pinRetries = 3, pukRetries = 5, version = ''3.4''\<rparr>,
      \<lparr>isConnected = True,
       cardStatus = Some \<lparr>initialized = True, pinRetries = 3, pukRetries = 5, version = ''3.4''\<rparr>\<rparr>,
      [])"
  by (simp add: initializeKeycard_def Let_def)

text \<open>
  Counterexample to C4 as stated: on a service that is already connected,
  \<open>initializeKeycard\<close> returns a status, not an error.
\<close>

theorem initializeKeycard_while_connected:
  "isConnected (fst (snd (initializeKeycard new_KeycardService))) \<and>
   fst (initializeKeycard (fst (snd (initializeKeycard new_KeycardService)))) =
     Inr \<lparr>initialized = True, pinRetries = 3, pukRetries = 5, version = ''3.4''\<rparr>"
  by (simp add: initializeKeycard_result)

text \<open>
  Claim C1, as the code has it. Whatever the ethers library computes as the hash of the
  transaction, \<open>signTransaction\<close> on a connected service returns the fixed signature of
  \<open>sendSigningCommand\<close>, with \<open>v = 27\<close>, for every digest; no public key is recovered
  or compared. It fails only with the error of ethers, when the transaction cannot be
  serialised, and with \<open>Keycard not connected\<close>, when the service is not connected.
\<close>

theorem signTransaction_mock_signature:
  "signTransaction txHashOf svc tx =
     (if \<not> isConnected svc then (Inl KeycardNotConnected, svc, [])
      else
        (case txHashOf tx of
           None \<Rightarrow> (Inl EthersError, svc, [])
         | Some d \<Rightarrow>
             (Inr \<lparr>signature = ''0x'' @ replicate 130 (CHR ''b''), sig_v = 27,
                   sig_r = ''0x'' @ replicate 64 (CHR ''c''),
                   sig_s = ''0x'' @ replicate 64 (CHR ''d'')\<rparr>,
              svc, [SigningCommand d])))"
  by (simp add: signTransaction_def sendSigningCommand_def Let_def split: option.splits)

text \<open>
  Counterexample to C1 as stated, for every hash function in the place of ethers and
  every transaction: on an initialised service each signature that \<open>signTransaction\<close>
  returns is the one of \<open>sendSigningCommand\<close>, whose recovery id is 27, neither 0 nor 1,
  and which is the same for all digests; \<open>signMessage\<close> returns the same signature
  string for every message.
\<close>

theorem signTransaction_recovery_id_27:
  "isConnected (fst (snd (initializeKeycard new_KeycardService))) \<and>
   (\<forall>txHashOf tx.
      fst (signTransaction txHashOf (fst (snd (initializeKeycard new_KeycardService))) tx) =
        (case txHashOf tx of
           None \<Rightarrow> Inl EthersError
         | Some d \<Rightarrow> Inr (sendSigningCommand d))) \<and>
   (\<forall>d. sig_v (sendSigningCommand d) = 27) \<and>
   (27 :: int) \<notin> {0, 1} \<and>
   (\<forall>d d'. sendSigningCommand d = sendSigningCommand d') \<and>
   (\<forall>hashMessage m.
      fst (signMessage hashMessage (fst (snd (initializeKeycard new_KeycardService))) m) =
        Inr (''0x'' @ replicate 130 (CHR ''b'')))"
  by (simp add: initializeKeycard_def signTransaction_def signMessage_def sendSigningCommand_def
      Let_def split: option.splits)

lemma verifyPin_cases:
  "verifyPin svc pin =
     (if \<not> isConnected svc then (Inl KeycardNotConnected, svc, [])
      else if \<not> pinFormatOk pin then (Inl PinFormatError, svc, [])
      else if sendPinVerificationCommand pin then (Inr True, svc, [PinVerificationCommand pin])
      else (case cardStatus svc of
              None \<Rightarrow> (Inl (InvalidPin None), svc, [PinVerificationCommand pin])
            | Some status \<Rightarrow>
                (if pinRetries status = 1 then Inl PinAttemptsExhausted
                 else Inl (InvalidPin (Some (pinRetries status - 1))),
                 svc\<lparr>cardStatus := Some (status\<lparr>pinRetries := pinRetries status - 1\<rparr>)\<rparr>,
                 [PinVerificationCommand pin])))"
  by (simp add: verifyPin_def Let_def split: option.splits)

text \<open>
  Claim C2, as the code has it. The stored \<open>pinRetries\<close> is a counter the service keeps
  itself: after any request it is a function of the stored value before and of the
  request alone. \<open>initializeKeycard\<close> sets it to 3, \<open>disconnect\<close> clears the status, a
  \<open>verifyPin\<close> whose simulated verification fails decrements it by one, and every other
  request leaves it as it was.
\<close>

theorem pinRetries_is_client_counter:
  "map_option pinRetries (cardStatus (step txHashOf hashMessage svc rq)) =
     (case rq of
        Initialize \<Rightarrow> Some 3
      | Disconnect \<Rightarrow> None
      | VerifyPin pin \<Rightarrow>
          (if isConnected svc \<and> pinFormatOk pin \<and> \<not> sendPinVerificationCommand pin
           then map_option (\<lambda>n. n - 1) (map_option pinRetries (cardStatus svc))
           else map_option pinRetries (cardStatus svc))
      | _ \<Rightarrow> map_option pinRetries (cardStatus svc))"
proof (cases rq)
  case Initialize
  then show ?thesis by (simp add: initializeKeycard_result)
next
  case (VerifyPin pin)
  then show ?thesis by (simp add: verifyPin_cases split: option.splits)
next
  case (DerivePublicKey path)
  then show ?thesis by (simp add: derivePublicKey_def)
next
  case (SignTransaction tx)
  then show ?thesis by (simp add: signTransaction_def Let_def split: option.splits)
next
  case (SignMessage m)
  then show ?thesis by (simp add: signMessage_def Let_def)
next
  case GetStatus
  then show ?thesis by simp
next
  case Disconnect
  then show ?thesis by (simp add: disconnect_def Let_def)
qed

text \<open>
  Counterexample to C2 as stated: after initialisation the counter is 3, and a
  well-formed five-digit PIN makes \<open>verifyPin\<close> decrement it to 2.
\<close>

theorem verifyPin_decrements_client_counter:
  "map_option pinRetries (getStatus (fst (snd (initializeKeycard new_KeycardService)))) = Some 3 \<and>
   verifyPin (fst (snd (initializeKeycard new_KeycardService))) ''12345'' =
     (Inl (InvalidPin (Some 2)),
      \<lparr>isConnected = True,
       cardStatus = Some \<lparr>initialized = True, pinRetries = 2, pukRetries = 5, version = ''3.4''\<rparr>\<rparr>,
      [PinVerificationCommand ''12345''])"
  by (simp add: initializeKeycard_result getStatus_def verifyPin_cases pinFormatOk_def isDigit_def
      sendPinVerificationCommand_def)

text \<open>
  On a connected service with a stored status, each \<open>verifyPin\<close> that the simulated
  card refuses lowers \<open>pinRetries\<close> by exactly one.
\<close>

lemma verifyPin_failure_decrements:
  assumes "isConnected svc" and "cardStatus svc = Some status" and "pinFormatOk pin"
    and "\<not> sendPinVerificationCommand pin"
  shows "map_option pinRetries (cardStatus (fst (snd (verifyPin svc pin)))) =
      Some (pinRetries status - 1)"
  using assms by (simp add: verifyPin_cases)

text \<open>
  Claim C3, evaluated where the code departs from it. Three refused PINs after
  initialisation bring \<open>pinRetries\<close> to 0, and the third call fails with
  \<open>PIN attempts exhausted. Keycard locked.\<close> From that state a further \<open>verifyPin\<close>
  still starts a verification exchange: a four-digit PIN is accepted, and a five-digit
  PIN takes the counter to -1. \<open>signMessage\<close> still starts a signing exchange and
  returns a signature.
\<close>

theorem verifyPin_after_lockout:
  "fst (verifyPin (run (Some :: string \<Rightarrow> string option) id
          (fst (snd (initializeKeycard new_KeycardService)))
          [VerifyPin ''12345'', VerifyPin ''12345'']) ''12345'') = Inl PinAttemptsExhausted \<and>
   run (Some :: string \<Rightarrow> string option) id (fst (snd (initializeKeycard new_KeycardService)))
       [VerifyPin ''12345'', VerifyPin ''12345'', VerifyPin ''12345''] =
     \<lparr>isConnected = True,
      cardStatus = Some \<lparr>initialized = True, pinRetries = 0, pukRetries = 5, version = ''3.4''\<rparr>\<rparr> \<and>
   verifyPin \<lparr>isConnected = True,
      cardStatus = Some \<lparr>initialized = True, pinRetries = 0, pukRetries = 5, version = ''3.4''\<rparr>\<rparr>
      ''1234'' =
     (Inr True,
      \<lparr>isConnected = True,
       cardStatus = Some \<lparr>initialized = True, pinRetries = 0, pukRetries = 5, version = ''3.4''\<rparr>\<rparr>,
      [PinVerificationCommand ''1234'']) \<and>
   verifyPin \<lparr>isConnected = True,
      cardStatus = Some \<lparr>initialized = True, pinRetries = 0, pukRetries = 5, version = ''3.4''\<rparr>\<rparr>
      ''12345'' =
     (Inl (InvalidPin (Some (- 1))),
      \<lparr>isConnected = True,
       cardStatus = Some \<lparr>initialized = True, pinRetries = - 1, pukRetries = 5, version = ''3.4''\<rparr>\<rparr>,
      [PinVerificationCommand ''12345'']) \<and>
   signMessage id \<lparr>isConnected = True,
      cardStatus = Some \<lparr>initialized = True, pinRetries = 0, pukRetries = 5, version = ''3.4''\<rparr>\<rparr>
      ''hello'' =
     (Inr (''0x'' @ replicate 130 (CHR ''b'')),
      \<lparr>isConnected = True,
       cardStatus = Some \<lparr>initialized = True, pinRetries = 0, pukRetries = 5, version = ''3.4''\<rparr>\<rparr>,
      [SigningCommand ''hello''])"
  by (simp add: run_def initializeKeycard_result verifyPin_cases pinFormatOk_def isDigit_def
      sendPinVerificationCommand_def signMessage_def sendSigningCommand_def Let_def)

text \<open>
  Claim C9, as the code has it. For a PIN that is not 4 to 6 decimal digits \<open>verifyPin\<close>
  fails without starting any exchange and without changing the service: with the
  PIN-format error when the service is connected, and with \<open>Keycard not connected\<close> when
  it is not (the connection test comes first).
\<close>

theorem verifyPin_rejects_bad_format:
  "\<not> pinFormatOk pin \<Longrightarrow>
   verifyPin svc pin =
     (Inl (if isConnected svc then PinFormatError else KeycardNotConnected), svc, [])"
  by (simp add: verifyPin_def)

text \<open>Witness for C9: the PIN \<open>12a4\<close> on a freshly initialised service.\<close>

theorem verifyPin_rejects_bad_format_witness:
  "\<not> pinFormatOk ''12a4'' \<and>
   verifyPin (fst (snd (initializeKeycard new_KeycardService))) ''12a4'' =
     (Inl PinFormatError, fst (snd (initializeKeycard new_KeycardService)), [])"
proof -
  have h: "\<not> pinFormatOk ''12a4''"
    by (simp add: pinFormatOk_def isDigit_def)
  show ?thesis
    using h verifyPin_rejects_bad_format [OF h, of "fst (snd (initializeKeycard new_KeycardService))"]
    by (simp add: initializeKeycard_result)
qed

text \<open>
  Counterexample to C9 as stated: on a freshly constructed service the PIN \<open>12\<close> is
  refused with \<open>Keycard not connected\<close>, not with the PIN-format error.
\<close>

theorem verifyPin_not_connected_error:
  "\<not> pinFormatOk ''12'' \<and>
   fst (verifyPin new_KeycardService ''12'') = Inl KeycardNotConnected \<and>
   fst (verifyPin new_KeycardService ''12'') \<noteq> Inl PinFormatError"
  by (simp add: verifyPin_def new_KeycardService_def pinFormatOk_def)

section \<open>Properties of the derivation-path parser\<close>

lemma isDigit_not_sep: "isDigit c \<Longrightarrow> c \<noteq> CHR ''/'' \<and> c \<noteq> apostrophe"
  by (auto simp add: isDigit_def apostrophe_def)

lemma matchSegments_digits:
  "list_all isDigit ds \<Longrightarrow> matchSegments Digits (ds @ rest) = matchSegments Digits rest"
  by (induction ds) simp_all

lemma renderSegments_Nil: "renderSegments [] = []"
  by (simp add: renderSegments_def)

lemma renderSegments_Cons:
  "renderSegments (sg # sgs) = CHR ''/'' # segmentText sg @ renderSegments sgs"
  by (simp add: renderSegments_def)

lemma matchSegments_Digits_render:
  "matchSegments Digits (renderSegments sgs) = matchSegments Boundary (renderSegments sgs)"
  by (cases sgs) (simp_all add: renderSegments_Nil renderSegments_Cons isDigit_def apostrophe_def)

lemma matchSegments_render:
  "list_all validSegment sgs \<Longrightarrow> matchSegments Boundary (renderSegments sgs)"
proof (induction sgs)
  case Nil
  then show ?case by (simp add: renderSegments_Nil)
next
  case (Cons sg sgs)
  then have valid: "validSegment sg" and ih: "matchSegments Boundary (renderSegments sgs)"
    by simp_all
  from valid obtain d ds where ds: "fst sg = d # ds" "isDigit d" "list_all isDigit ds"
    by (cases "fst sg") (auto simp add: validSegment_def)
  have "matchSegments Boundary (renderSegments (sg # sgs)) =
      matchSegments Digits ((if snd sg then [apostrophe] else []) @ renderSegments sgs)"
    using ds by (simp add: renderSegments_Cons segmentText_def matchSegments_digits)
  also have "\<dots> = matchSegments Boundary (renderSegments sgs)"
    using isDigit_not_sep [of apostrophe]
    by (auto simp add: matchSegments_Digits_render)
  finally show ?case using ih by simp
qed


text \<open>
  Whatever the automaton accepts is a rendered list of valid segments; the three states
  are treated together, since each refers to the others.
\<close>

lemma matchSegments_parse:
  "(matchSegments Boundary cs \<longrightarrow>
      (\<exists>sgs. list_all validSegment sgs \<and> cs = renderSegments sgs)) \<and>
   (matchSegments Slash cs \<longrightarrow>
      (\<exists>ds h sgs. ds \<noteq> [] \<and> list_all isDigit ds \<and> list_all validSegment sgs \<and>
         cs = ds @ (if h then [apostrophe] else []) @ renderSegments sgs)) \<and>
   (matchSegments Digits cs \<longrightarrow>
      (\<exists>ds h sgs. list_all isDigit ds \<and> list_all validSegment sgs \<and>
         cs = ds @ (if h then [apostrophe] else []) @ renderSegments sgs))"
proof (induction cs)
  case Nil
  have b: "\<exists>sgs. list_all validSegment sgs \<and> [] = renderSegments sgs"
    by (rule exI [of _ "[]"]) (simp add: renderSegments_Nil)
  have "list_all isDigit [] \<and> list_all validSegment [] \<and>
      [] = [] @ (if False then [apostrophe] else []) @ renderSegments []"
    by (simp add: renderSegments_Nil)
  then have d: "\<exists>ds h sgs. list_all isDigit ds \<and> list_all validSegment sgs \<and>
      [] = ds @ (if h then [apostrophe] else []) @ renderSegments sgs"
    by blast
  have s: "\<not> matchSegments Slash []" by simp
  from b d s show ?case by blast
next
  case (Cons c cs)
  have boundary: "\<exists>sgs. list_all validSegment sgs \<and> c # cs = renderSegments sgs"
    if m: "matchSegments Boundary (c # cs)"
  proof -
    from m have c: "c = CHR ''/''" and "matchSegments Slash cs" by simp_all
    with Cons obtain ds h sgs where *: "ds \<noteq> []" "list_all isDigit ds"
        "list_all validSegment sgs" "cs = ds @ (if h then [apostrophe] else []) @ renderSegments sgs"
      by blast
    have "list_all validSegment ((ds, h) # sgs)"
      using * by (simp add: validSegment_def)
    moreover have "c # cs = renderSegments ((ds, h) # sgs)"
      using * c by (simp add: renderSegments_Cons segmentText_def)
    ultimately show ?thesis by blast
  qed
  have slash: "\<exists>ds h sgs. ds \<noteq> [] \<and> list_all isDigit ds \<and> list_all validSegment sgs \<and>
         c # cs = ds @ (if h then [apostrophe] else []) @ renderSegments sgs"
    if m: "matchSegments Slash (c # cs)"
  proof -
    from m have c: "isDigit c" and "matchSegments Digits cs" by simp_all
    with Cons obtain ds h sgs where *: "list_all isDigit ds"
        "list_all validSegment sgs" "cs = ds @ (if h then [apostrophe] else []) @ renderSegments sgs"
      by blast
    have "c # ds \<noteq> [] \<and> list_all isDigit (c # ds) \<and> list_all validSegment sgs \<and>
        c # cs = (c # ds) @ (if h then [apostrophe] else []) @ renderSegments sgs"
      using * c by simp
    then show ?thesis by blast
  qed
  have digits: "\<exists>ds h sgs. list_all isDigit ds \<and> list_all validSegment sgs \<and>
         c # cs = ds @ (if h then [apostrophe] else []) @ renderSegments sgs"
    if m: "matchSegments Digits (c # cs)"
  proof (cases "isDigit c")
    case True
    with m have "matchSegments Digits cs" by simp
    with Cons obtain ds h sgs where *: "list_all isDigit ds"
        "list_all validSegment sgs" "cs = ds @ (if h then [apostrophe] else []) @ renderSegments sgs"
      by blast
    have "list_all isDigit (c # ds) \<and> list_all validSegment sgs \<and>
        c # cs = (c # ds) @ (if h then [apostrophe] else []) @ renderSegments sgs"
      using * True by simp
    then show ?thesis by blast
  next
    case False
    show ?thesis
    proof (cases "c = apostrophe")
      case True
      with m False have "matchSegments Boundary cs" by simp
      with Cons obtain sgs where *: "list_all validSegment sgs" "cs = renderSegments sgs"
        by blast
      have "list_all isDigit [] \<and> list_all validSegment sgs \<and>
          c # cs = [] @ (if True then [apostrophe] else []) @ renderSegments sgs"
        using * True by simp
      then show ?thesis by blast
    next
      case notap: False
      with m False have "matchSegments Boundary (c # cs)" by simp
      from boundary [OF this] obtain sgs where
        *: "list_all validSegment sgs" "c # cs = renderSegments sgs"
        by blast
      have "list_all isDigit [] \<and> list_all validSegment sgs \<and>
          c # cs = [] @ (if False then [apostrophe] else []) @ renderSegments sgs"
        using * by simp
      then show ?thesis by blast
    qed
  qed
  from boundary slash digits show ?case by blast
qed

text \<open>
  The validity test accepts exactly the strings of the pattern: \<open>m\<close> followed by zero or
  more segments \<open>/digits\<close> with an optional apostrophe.
\<close>

lemma isValidDerivationPath_iff:
  "isValidDerivationPath path \<longleftrightarrow>
     (\<exists>sgs. list_all validSegment sgs \<and> path = renderPath sgs)"
proof
  assume "isValidDerivationPath path"
  then obtain cs where path: "path = CHR ''m'' # cs" and m: "matchSegments Boundary cs"
    by (cases path) (auto simp add: isValidDerivationPath_def)
  from m matchSegments_parse [of cs] obtain sgs where
    "list_all validSegment sgs" "cs = renderSegments sgs"
    by blast
  with path show "\<exists>sgs. list_all validSegment sgs \<and> path = renderPath sgs"
    by (auto simp add: renderPath_def)
next
  assume "\<exists>sgs. list_all validSegment sgs \<and> path = renderPath sgs"
  then show "isValidDerivationPath path"
    by (auto simp add: isValidDerivationPath_def renderPath_def matchSegments_render)
qed

lemma split_nonempty: "split sep xs \<noteq> []"
  by (induction xs) (simp_all add: Let_def)

lemma split_no_sep: "sep \<notin> set xs \<Longrightarrow> split sep xs = [xs]"
  by (induction xs) (auto simp add: Let_def)

lemma split_at_sep:
  "sep \<notin> set xs \<Longrightarrow> split sep (xs @ sep # ys) = xs # split sep ys"
  by (induction xs) (auto simp add: Let_def)

lemma segmentText_no_slash: "validSegment sg \<Longrightarrow> CHR ''/'' \<notin> set (segmentText sg)"
  using isDigit_not_sep
  by (auto simp add: validSegment_def segmentText_def list_all_iff apostrophe_def)

lemma split_render:
  "list_all validSegment sgs \<Longrightarrow> CHR ''/'' \<notin> set pre \<Longrightarrow>
   split (CHR ''/'') (pre @ renderSegments sgs) = pre # map segmentText sgs"
proof (induction sgs arbitrary: pre)
  case Nil
  then show ?case by (simp add: renderSegments_Nil split_no_sep)
next
  case (Cons sg sgs)
  then have valid: "validSegment sg" and rest: "list_all validSegment sgs" by simp_all
  have "split (CHR ''/'') (pre @ renderSegments (sg # sgs)) =
      pre # split (CHR ''/'') (segmentText sg @ renderSegments sgs)"
    using Cons.prems(2) by (simp add: renderSegments_Cons split_at_sep)
  also have "split (CHR ''/'') (segmentText sg @ renderSegments sgs) =
      segmentText sg # map segmentText sgs"
    using Cons.IH [OF rest segmentText_no_slash [OF valid]] .
  finally show ?case by simp
qed

lemma parts_of_renderPath:
  "list_all validSegment sgs \<Longrightarrow>
   drop 1 (split (CHR ''/'') (renderPath sgs)) = map segmentText sgs"
  using split_render [of sgs "''m''"] by (simp add: renderPath_def)

lemma endsWithApostrophe_segmentText:
  "validSegment sg \<Longrightarrow> endsWithApostrophe (segmentText sg) = snd sg"
proof -
  assume valid: "validSegment sg"
  then have ne: "fst sg \<noteq> []" and "isDigit (last (fst sg))"
    by (auto simp add: validSegment_def list_all_iff)
  then have "last (fst sg) \<noteq> apostrophe"
    using isDigit_not_sep by blast
  with ne show ?thesis
    by (simp add: endsWithApostrophe_def segmentText_def)
qed

lemma replaceApostrophe_segmentText:
  "validSegment sg \<Longrightarrow> replaceApostrophe (segmentText sg) = fst sg"
proof -
  assume "validSegment sg"
  then have "apostrophe \<notin> set (fst sg)"
    using isDigit_not_sep by (auto simp add: validSegment_def list_all_iff)
  then show ?thesis
    by (simp add: replaceApostrophe_def segmentText_def remove1_append remove1_idem)
qed

lemma parseInt10_digits:
  "validSegment sg \<Longrightarrow> parseInt10 (fst sg) = toNumber (decimalValue (fst sg))"
proof -
  assume "validSegment sg"
  then have "\<forall>c\<in>set (fst sg). isDigit c" and ne: "fst sg \<noteq> []"
    by (auto simp add: validSegment_def list_all_iff)
  then have tw: "takeWhile isDigit (fst sg) = fst sg"
    by (simp add: takeWhile_eq_all_conv)
  show ?thesis
    unfolding parseInt10_def Let_def tw using ne by simp
qed

lemma toNumber_safe: "n < 2 ^ 53 \<Longrightarrow> toNumber n = Num n"
  by (simp add: toNumber_def)

text \<open>
  One part of a valid path: below \<open>2^53\<close> the conversions to a number are exact, so the
  part evaluates to the index of its segment.
\<close>

lemma part_value:
  assumes "validSegment sg" and "segmentIndex sg < 2 ^ 53"
  shows "(if endsWithApostrophe (segmentText sg)
          then jsAdd (parseInt10 (replaceApostrophe (segmentText sg))) 0x80000000
          else parseInt10 (replaceApostrophe (segmentText sg))) = Num (segmentIndex sg)"
proof (cases "snd sg")
  case True
  with assms(2) have sum: "decimalValue (fst sg) + 2147483648 < 2 ^ 53"
    by (simp add: segmentIndex_def)
  then have small: "decimalValue (fst sg) < 2 ^ 53" by simp
  show ?thesis
    using assms(1) True
    by (simp add: endsWithApostrophe_segmentText replaceApostrophe_segmentText
        parseInt10_digits toNumber_safe [OF small] toNumber_safe [OF sum] segmentIndex_def)
next
  case False
  with assms(2) have small: "decimalValue (fst sg) < 2 ^ 53"
    by (simp add: segmentIndex_def)
  show ?thesis
    using assms(1) False
    by (simp add: endsWithApostrophe_segmentText replaceApostrophe_segmentText
        parseInt10_digits toNumber_safe [OF small] segmentIndex_def)
qed

text \<open>
  Claim C10, as the code has it. On a path of the pattern whose indices (with \<open>2^31\<close>
  added for a hardened segment) are all below \<open>2^53\<close>, \<open>parseDerivationPath\<close> returns
  one number per segment: the plain index of an unhardened segment, and the index plus
  \<open>0x80000000\<close> of a hardened one. On a string that is not of the pattern it fails with
  the invalid-derivation-path error.
\<close>

theorem parseDerivationPath_on_pattern:
  "(list_all validSegment sgs \<and> list_all (\<lambda>sg. segmentIndex sg < 2 ^ 53) sgs \<longrightarrow>
      parseDerivationPath (renderPath sgs) = Inr (map (\<lambda>sg. Num (segmentIndex sg)) sgs)) \<and>
   (\<not> (\<exists>sgs. list_all validSegment sgs \<and> path = renderPath sgs) \<longrightarrow>
      parseDerivationPath path = Inl InvalidDerivationPath)"
proof (intro conjI impI)
  assume a: "list_all validSegment sgs \<and> list_all (\<lambda>sg. segmentIndex sg < 2 ^ 53) sgs"
  then have valid: "isValidDerivationPath (renderPath sgs)"
    using isValidDerivationPath_iff by blast
  have "map (\<lambda>part.
          (if endsWithApostrophe part
           then jsAdd (parseInt10 (replaceApostrophe part)) 0x80000000
           else parseInt10 (replaceApostrophe part))) (map segmentText sgs) =
        map (\<lambda>sg. Num (segmentIndex sg)) sgs"
    using a by (induction sgs) (simp_all add: part_value)
  moreover have "drop (Suc 0) (split (CHR ''/'') (renderPath sgs)) = map segmentText sgs"
    using a parts_of_renderPath [of sgs] by simp
  ultimately
  show "parseDerivationPath (renderPath sgs) = Inr (map (\<lambda>sg. Num (segmentIndex sg)) sgs)"
    using valid by (simp add: parseDerivationPath_def Let_def)
next
  assume "\<not> (\<exists>sgs. list_all validSegment sgs \<and> path = renderPath sgs)"
  then have "\<not> isValidDerivationPath path"
    using isValidDerivationPath_iff by blast
  then show "parseDerivationPath path = Inl InvalidDerivationPath"
    by (simp add: parseDerivationPath_def)
qed

lemma not_valid_example: "\<not> isValidDerivationPath ''m/44h/0''"
  by (simp add: isValidDerivationPath_def isDigit_def apostrophe_def)

text \<open>
  Witness for C10: the path \<open>m/44'/60'/0'/0/0\<close>, and the string \<open>m/44h/0\<close>, which is not
  of the pattern.
\<close>

theorem parseDerivationPath_on_pattern_witness:
  "(list_all validSegment
      [(''44'', True), (''60'', True), (''0'', True), (''0'', False), (''0'', False)] \<and>
    list_all (\<lambda>sg. segmentIndex sg < 2 ^ 53)
      [(''44'', True), (''60'', True), (''0'', True), (''0'', False), (''0'', False)] \<and>
    renderPath [(''44'', True), (''60'', True), (''0'', True), (''0'', False), (''0'', False)] =
      ''m/44'/60'/0'/0/0'' \<and>
    parseDerivationPath ''m/44'/60'/0'/0/0'' =
      Inr [Num 2147483692, Num 2147483708, Num 2147483648, Num 0, Num 0]) \<and>
   (\<not> (\<exists>sgs. list_all validSegment sgs \<and> ''m/44h/0'' = renderPath sgs) \<and>
    parseDerivationPath ''m/44h/0'' = Inl InvalidDerivationPath)"
proof -
  let ?sgs = "[(''44'', True), (''60'', True), (''0'', True), (''0'', False), (''0'', False)]"
  have v: "list_all validSegment ?sgs"
    by (simp add: validSegment_def isDigit_def)
  have d: "decimalValue ''44'' = 44 \<and> decimalValue ''60'' = 60 \<and> decimalValue ''0'' = 0"
    by (simp add: decimalValue_def digitValue_def)
  have b: "list_all (\<lambda>sg. segmentIndex sg < 2 ^ 53) ?sgs"
    by (simp add: segmentIndex_def d)
  have r: "renderPath ?sgs = ''m/44'/60'/0'/0/0''"
    by (simp add: renderPath_def renderSegments_def segmentText_def apostrophe_def)
  have n: "\<not> (\<exists>sgs. list_all validSegment sgs \<and> ''m/44h/0'' = renderPath sgs)"
    using not_valid_example isValidDerivationPath_iff by blast
  have i: "map (\<lambda>sg. Num (segmentIndex sg)) ?sgs =
      [Num 2147483692, Num 2147483708, Num 2147483648, Num 0, Num 0]"
    by (simp add: segmentIndex_def d)
  from parseDerivationPath_on_pattern [of ?sgs "''m/44h/0''"] v b n
  have "parseDerivationPath (renderPath ?sgs) = Inr (map (\<lambda>sg. Num (segmentIndex sg)) ?sgs)"
    and e: "parseDerivationPath ''m/44h/0'' = Inl InvalidDerivationPath"
    by blast+
  then have "parseDerivationPath ''m/44'/60'/0'/0/0'' =
      Inr [Num 2147483692, Num 2147483708, Num 2147483648, Num 0, Num 0]"
    by (simp only: r i)
  with v b r n e show ?thesis by blast
qed

lemma bitLength_2_53_1: "bitLength 9007199254740993 = 54"
  by (simp add: bitLength.simps)

text \<open>
  Counterexample to C10 as stated: the path \<open>m/9007199254740993\<close> is of the pattern, and
  its index \<open>2^53 + 1\<close> is not a double; \<open>parseInt\<close> returns the nearest one, \<open>2^53\<close>,
  so the result is not the plain index.
\<close>

theorem parseDerivationPath_rounds_large_index:
  "isValidDerivationPath ''m/9007199254740993'' \<and>
   parseDerivationPath ''m/9007199254740993'' = Inr [Num 9007199254740992] \<and>
   parseDerivationPath ''m/9007199254740993'' \<noteq> Inr [Num 9007199254740993]"
proof -
  have v: "isValidDerivationPath ''m/9007199254740993''"
    by (simp add: isValidDerivationPath_def isDigit_def apostrophe_def)
  have d: "decimalValue ''9007199254740993'' = 9007199254740993"
    by (simp add: decimalValue_def digitValue_def)
  have t: "toNumber 9007199254740993 = Num 9007199254740992"
    by (simp add: toNumber_def bitLength_2_53_1 Let_def)
  have "parseDerivationPath ''m/9007199254740993'' = Inr [Num 9007199254740992]"
    using v by (simp add: parseDerivationPath_def endsWithApostrophe_def replaceApostrophe_def
        parseInt10_def isDigit_def apostrophe_def d t Let_def)
  with v show ?thesis by simp
qed

end
